theory Spec2Isabelle
  imports Complex_Main
begin

section \<open>Python values and primitives used by main.py\<close>

text \<open>
  The exceptions that the modelled statements can raise. \<open>CursesError\<close> is
  \<^verbatim>\<open>curses.error\<close>; \<open>Exception\<close> carries the message of a plain
  \<^verbatim>\<open>raise Exception(msg)\<close>.
\<close>

datatype exn = OverflowError | ZeroDivisionError | IndexError | CursesError | Exception string

text \<open>
  Python's \<^verbatim>\<open>a % b\<close> on integers: the result takes the sign of the divisor
  (as \<open>mod\<close> on \<open>int\<close> does), and a zero divisor raises.
\<close>

definition py_mod :: "int \<Rightarrow> int \<Rightarrow> exn + int" where
  "py_mod a b = (if b = 0 then Inl ZeroDivisionError else Inr (a mod b))"

text \<open>
  Python's \<^verbatim>\<open>int(x)\<close> on a finite float: the fractional part is discarded,
  that is, rounding is toward zero. A finite float is a rational number, and the
  conversion is exact.
\<close>

definition py_int :: "rat \<Rightarrow> int" where
  "py_int x = (if 0 \<le> x then \<lfloor>x\<rfloor> else \<lceil>x\<rceil>)"

text \<open>
  Python's \<^verbatim>\<open>xs[a:b]\<close>: a negative bound counts from the end, and every bound
  is clipped to the list, so a slice never raises.
\<close>

definition clip_index :: "nat \<Rightarrow> int \<Rightarrow> nat" where
  "clip_index n i = (if i < 0 then nat (max (i + int n) 0) else min (nat i) n)"

definition py_slice :: "'a list \<Rightarrow> int \<Rightarrow> int \<Rightarrow> 'a list" where
  "py_slice xs a b = drop (clip_index (length xs) a) (take (clip_index (length xs) b) xs)"

text \<open>Python's \<^verbatim>\<open>xs[i]\<close>: a negative index counts from the end, out of range raises.\<close>

definition py_index :: "'a list \<Rightarrow> int \<Rightarrow> exn + 'a" where
  "py_index xs i =
     (let n = int (length xs); j = (if i < 0 then i + n else i)
      in if 0 \<le> j \<and> j < n then Inr (xs ! nat j) else Inl IndexError)"

text \<open>Python's \<^verbatim>\<open>xs[i] = v\<close>, with the same index rule.\<close>

definition py_store :: "'a list \<Rightarrow> int \<Rightarrow> 'a \<Rightarrow> exn + 'a list" where
  "py_store xs i v =
     (let n = int (length xs); j = (if i < 0 then i + n else i)
      in if 0 \<le> j \<and> j < n then Inr (xs[nat j := v]) else Inl IndexError)"

text \<open>\<^verbatim>\<open>range(n)\<close> as the list of its values.\<close>

definition py_range :: "int \<Rightarrow> int list" where
  "py_range n = [0..n - 1]"


section \<open>Constants and the scene\<close>

definition SCENE_WIDTH_MULTIPLIER :: int where
  "SCENE_WIDTH_MULTIPLIER = 4"

definition SCENE_HEIGHT_MULTIPLIER :: int where
  "SCENE_HEIGHT_MULTIPLIER = 3"

type_synonym scene = "char list list"

text \<open>
  \<^verbatim>\<open>scene[10][i] = "#"\<close>: the row is looked up, the cell is stored in it, and
  the scene holds the changed row (the rows of the comprehension are distinct lists).
\<close>

definition store_cell :: "scene \<Rightarrow> int \<Rightarrow> int \<Rightarrow> char \<Rightarrow> exn + scene" where
  "store_cell scene r c v =
     (case py_index scene r of
        Inl e \<Rightarrow> Inl e
      | Inr line \<Rightarrow>
          (case py_store line c v of
             Inl e \<Rightarrow> Inl e
           | Inr line' \<Rightarrow> py_store scene r line'))"

fun mark_cells :: "int list \<Rightarrow> scene \<Rightarrow> exn + scene" where
  "mark_cells [] scene = Inr scene"
| "mark_cells (i # is) scene =
     (case store_cell scene 10 i (CHR ''#'') of
        Inl e \<Rightarrow> Inl e
      | Inr scene' \<Rightarrow> mark_cells is scene')"

definition generate_scene :: "int \<Rightarrow> int \<Rightarrow> exn + scene" where
  "generate_scene width height =
     mark_cells [5..14] (replicate (nat height) (replicate (nat width) (CHR '' '')))"


section \<open>Viewport windowing (render_scene, lines 108 to 124)\<close>

text \<open>
  Lines 109 and 110: the anchor of the viewport along one axis, from the stored
  offset and the scene's extent along that axis.
\<close>

definition visible_start :: "rat \<Rightarrow> int \<Rightarrow> exn + int" where
  "visible_start offset extent = py_mod (py_int offset) extent"

text \<open>
  Lines 114 to 120: the characters of one scene row that fall in the viewport.
  \<^verbatim>\<open>"".join\<close> of a list of one-character strings is the list of those characters.
\<close>

definition visible_line :: "char list \<Rightarrow> int \<Rightarrow> int \<Rightarrow> int \<Rightarrow> string" where
  "visible_line scene_row scene_width max_x visible_start_x =
     (let visible_end_x = visible_start_x + max_x
      in if visible_end_x < scene_width
         then py_slice scene_row visible_start_x visible_end_x
         else (let part1 = py_slice scene_row visible_start_x scene_width;
                   part2 = py_slice scene_row 0 (visible_end_x - scene_width)
               in part1 @ part2))"

text \<open>
  Lines 113 to 124 for one value of \<open>row\<close>: the text handed to
  \<^verbatim>\<open>stdscr.addstr(row, 0, line[:max_x])\<close>.
\<close>

definition row_text :: "scene \<Rightarrow> int \<Rightarrow> int \<Rightarrow> int \<Rightarrow> int \<Rightarrow> int \<Rightarrow> int \<Rightarrow> exn + string" where
  "row_text scene scene_width scene_height max_x visible_start_x visible_start_y row =
     (case py_mod (visible_start_y + row) scene_height of
        Inl e \<Rightarrow> Inl e
      | Inr actual_y \<Rightarrow>
          (case py_index scene actual_y of
             Inl e \<Rightarrow> Inl e
           | Inr scene_row \<Rightarrow>
               Inr (py_slice (visible_line scene_row scene_width max_x visible_start_x) 0 max_x)))"

text \<open>
  The window as the spec words it (section 4.3, step 4): one contiguous slice when
  \<open>start_x + w \<le> W\<close>, otherwise the two slices \<open>[start_x, W)\<close> and
  \<open>[0, start_x + w - W)\<close>.
\<close>

definition spec_line :: "char list \<Rightarrow> int \<Rightarrow> int \<Rightarrow> int \<Rightarrow> string" where
  "spec_line scene_row W w start_x =
     (if start_x + w \<le> W
      then py_slice scene_row start_x (start_x + w)
      else py_slice scene_row start_x W @ py_slice scene_row 0 (start_x + w - W))"


section \<open>Floating-point arithmetic of the camera offsets\<close>

text \<open>
  The offsets are Python floats: IEEE 754 binary64 numbers. A finite float is a
  rational number, and every arithmetic result is the exact result rounded to the
  nearest float, ties to the float with an even significand. A result too large for
  the format is an infinity; the sign of an infinity is not kept, since the only use
  of an offset is \<^verbatim>\<open>int(offset)\<close>, which raises on either.
\<close>

datatype pyfloat = Finite rat | Infinity

text \<open>The number of binary digits of a positive integer (\<^verbatim>\<open>int.bit_length\<close>).\<close>

function bit_length :: "int \<Rightarrow> int" where
  "bit_length n = (if n \<le> 0 then 0 else 1 + bit_length (n div 2))"
  by pat_completeness auto
termination
  by (relation "measure nat") auto

declare bit_length.simps [simp del]

definition pow2 :: "int \<Rightarrow> rat" where
  "pow2 e = (if 0 \<le> e then 2 ^ nat e else 1 / 2 ^ nat (- e))"

text \<open>For positive \<open>a\<close>, the exponent \<open>e\<close> with \<open>2^e \<le> a < 2^(e+1)\<close>.\<close>

definition binade :: "rat \<Rightarrow> int" where
  "binade a =
     (let (n, d) = quotient_of a;
          k = bit_length n - bit_length d
      in if pow2 k \<le> a then k else k - 1)"

definition round_half_even :: "rat \<Rightarrow> int" where
  "round_half_even q =
     (let f = \<lfloor>q\<rfloor>; r = q - of_int f
      in if r < 1 / 2 then f
         else if 1 / 2 < r then f + 1
         else if even f then f else f + 1)"

text \<open>
  Rounding of an exact result to binary64: 53 significant bits, and the least exponent
  of the last place is \<open>-1074\<close>. The rounded magnitude \<open>m * 2^p\<close> lies in the
  binade \<open>e\<close> of the exact one, or in the next when rounding carried to
  \<open>m = 2^53\<close>; a result in binade 1024 or above overflows.
\<close>

definition fl :: "rat \<Rightarrow> pyfloat" where
  "fl q =
     (if q = 0 then Finite 0
      else (let a = \<bar>q\<bar>;
                e = binade a;
                p = max (e - 52) (- 1074);
                m = round_half_even (a / pow2 p)
            in if 1024 \<le> (if m = 2 ^ 53 then e + 1 else e) then Infinity
               else Finite (sgn q * (of_int m * pow2 p))))"

text \<open>Line 9: the float that the literal \<^verbatim>\<open>0.2\<close> denotes.\<close>

definition SCROLL_SPEED :: pyfloat where
  "SCROLL_SPEED = fl (2 / 10)"

text \<open>
  \<^verbatim>\<open>n * f\<close> for an integer \<open>n\<close> and a float \<open>f\<close>: the integer is converted to
  a float first (correctly rounded; too large an integer raises OverflowError), then
  the two floats are multiplied.
\<close>

definition int_times_float :: "int \<Rightarrow> pyfloat \<Rightarrow> exn + pyfloat" where
  "int_times_float n f =
     (case fl (of_int n) of
        Infinity \<Rightarrow> Inl OverflowError
      | Finite x \<Rightarrow>
          (case f of
             Infinity \<Rightarrow> Inr Infinity
           | Finite y \<Rightarrow> Inr (fl (x * y))))"

text \<open>\<^verbatim>\<open>a - b\<close> and \<^verbatim>\<open>a + b\<close> for a finite float \<open>a\<close>.\<close>

definition fsub :: "rat \<Rightarrow> pyfloat \<Rightarrow> pyfloat" where
  "fsub a b = (case b of Infinity \<Rightarrow> Infinity | Finite y \<Rightarrow> fl (a - y))"

definition fadd :: "rat \<Rightarrow> pyfloat \<Rightarrow> pyfloat" where
  "fadd a b = (case b of Infinity \<Rightarrow> Infinity | Finite y \<Rightarrow> fl (a + y))"

text \<open>\<^verbatim>\<open>int(f)\<close> for any float: an infinity raises OverflowError.\<close>

definition int_of_float :: "pyfloat \<Rightarrow> exn + int" where
  "int_of_float f = (case f of Infinity \<Rightarrow> Inl OverflowError | Finite x \<Rightarrow> Inr (py_int x))"


section \<open>Global state and the motion callback\<close>

text \<open>
  The three module-level variables of lines 12 to 14. Between two frames the offsets
  are finite: a frame that makes one infinite raises at line 109 or 110.
\<close>

record globals =
  scene_offset :: rat
  vertical_offset :: rat
  mouse_delta_buffer :: "int \<times> int"

definition initial_globals :: globals where
  "initial_globals = \<lparr>scene_offset = 0, vertical_offset = 0, mouse_delta_buffer = (0, 0)\<rparr>"

text \<open>
  Lines 26 to 41, run as one step: \<open>moved\<close> says whether the event is a
  mouse-moved event, \<open>dx\<close> and \<open>dy\<close> are its two delta fields.
\<close>

definition mouse_event_callback :: "bool \<Rightarrow> int \<Rightarrow> int \<Rightarrow> globals \<Rightarrow> globals" where
  "mouse_event_callback moved dx dy g =
     (if moved
      then g\<lparr>mouse_delta_buffer :=
               (fst (mouse_delta_buffer g) + dx, snd (mouse_delta_buffer g) - dy)\<rparr>
      else g)"


section \<open>The display and one frame of render_scene\<close>

text \<open>
  The curses window is a collaborator outside the repository. It is taken as a
  parameter: a state \<open>'d\<close> and the four methods the loop calls. A write returns the
  window after the call together with the exception it raised, if any (a failing
  write may still have changed the window).
\<close>

record 'd stdscr =
  clear :: "'d \<Rightarrow> 'd"
  addstr :: "'d \<Rightarrow> int \<Rightarrow> int \<Rightarrow> string \<Rightarrow> 'd \<times> exn option"
  addch :: "'d \<Rightarrow> int \<Rightarrow> int \<Rightarrow> char \<Rightarrow> 'd \<times> exn option"
  refresh :: "'d \<Rightarrow> 'd"

text \<open>
  \<^verbatim>\<open>try: <write> except curses.error: pass\<close>: a \<^verbatim>\<open>curses.error\<close> is dropped and
  the loop goes on with the window as the write left it; any other exception
  propagates.
\<close>

definition except_curses_error :: "'d \<times> exn option \<Rightarrow> exn + 'd" where
  "except_curses_error r =
     (case snd r of
        None \<Rightarrow> Inr (fst r)
      | Some e \<Rightarrow> (if e = CursesError then Inr (fst r) else Inl e))"

text \<open>Lines 112 to 126: the loop over the rows still to draw.\<close>

fun draw_rows ::
  "'d stdscr \<Rightarrow> scene \<Rightarrow> int \<Rightarrow> int \<Rightarrow> int \<Rightarrow> int \<Rightarrow> int \<Rightarrow> int list \<Rightarrow> 'd \<Rightarrow> exn + 'd" where
  "draw_rows scr scene scene_width scene_height max_x visible_start_x visible_start_y [] d = Inr d"
| "draw_rows scr scene scene_width scene_height max_x visible_start_x visible_start_y (row # rows) d =
     (case row_text scene scene_width scene_height max_x visible_start_x visible_start_y row of
        Inl e \<Rightarrow> Inl e
      | Inr text \<Rightarrow>
          (case except_curses_error (addstr scr d row 0 text) of
             Inl e \<Rightarrow> Inl e
           | Inr d' \<Rightarrow>
               draw_rows scr scene scene_width scene_height max_x
                 visible_start_x visible_start_y rows d'))"

text \<open>Lines 128 to 134.\<close>

definition draw_crosshair :: "'d stdscr \<Rightarrow> int \<Rightarrow> int \<Rightarrow> 'd \<Rightarrow> exn + 'd" where
  "draw_crosshair scr max_y max_x d =
     (let crosshair_row = max_y div 2;
          crosshair_col = max_x div 2
      in except_curses_error (addch scr d crosshair_row crosshair_col (CHR ''+'')))"

text \<open>
  Lines 104 to 106: the two offsets after the update, from the offsets before and
  the consumed deltas. Only the two products can raise.
\<close>

definition camera_update :: "rat \<Rightarrow> rat \<Rightarrow> int \<Rightarrow> int \<Rightarrow> exn + pyfloat \<times> pyfloat" where
  "camera_update ox oy dx dy =
     (case int_times_float dx SCROLL_SPEED of
        Inl e \<Rightarrow> Inl e
      | Inr sx \<Rightarrow>
          (case int_times_float dy SCROLL_SPEED of
             Inl e \<Rightarrow> Inl e
           | Inr sy \<Rightarrow> Inr (fsub ox sx, fadd oy sy)))"

text \<open>
  Lines 108 to 110: both anchors, with the finite values of the offsets they were
  computed from.
\<close>

definition anchors ::
  "pyfloat \<times> pyfloat \<Rightarrow> int \<Rightarrow> int \<Rightarrow> exn + (rat \<times> rat) \<times> (int \<times> int)" where
  "anchors offs scene_width scene_height =
     (case fst offs of
        Infinity \<Rightarrow> Inl OverflowError
      | Finite x \<Rightarrow>
          (case visible_start x scene_width of
             Inl e \<Rightarrow> Inl e
           | Inr visible_start_x \<Rightarrow>
               (case snd offs of
                  Infinity \<Rightarrow> Inl OverflowError
                | Finite y \<Rightarrow>
                    (case visible_start y scene_height of
                       Inl e \<Rightarrow> Inl e
                     | Inr visible_start_y \<Rightarrow>
                         Inr ((x, y), (visible_start_x, visible_start_y))))))"

text \<open>
  One iteration of the loop of lines 96 to 140, with no callback running during
  it. Hiding the mouse cursor (line 137) touches neither the globals nor the window.
\<close>

definition render_frame ::
  "'d stdscr \<Rightarrow> int \<Rightarrow> int \<Rightarrow> int \<Rightarrow> int \<Rightarrow> scene \<Rightarrow> globals \<times> 'd \<Rightarrow> exn + globals \<times> 'd" where
  "render_frame scr max_y max_x scene_width scene_height scene s =
     (let g = fst s;
          d0 = clear scr (snd s);
          dx = fst (mouse_delta_buffer g);
          dy = snd (mouse_delta_buffer g)
      in case camera_update (scene_offset g) (vertical_offset g) dx dy of
           Inl e \<Rightarrow> Inl e
         | Inr offs \<Rightarrow>
             (case anchors offs scene_width scene_height of
                Inl e \<Rightarrow> Inl e
              | Inr (xy, start) \<Rightarrow>
                  (case draw_rows scr scene scene_width scene_height max_x
                          (fst start) (snd start) (py_range max_y) d0 of
                     Inl e \<Rightarrow> Inl e
                   | Inr d1 \<Rightarrow>
                       (case draw_crosshair scr max_y max_x d1 of
                          Inl e \<Rightarrow> Inl e
                        | Inr d2 \<Rightarrow>
                            Inr (\<lparr>scene_offset = fst xy, vertical_offset = snd xy,
                                   mouse_delta_buffer = (0, 0)\<rparr>,
                                 refresh scr d2)))))"

text \<open>Lines 88 to 94: the scene and its dimensions, from the terminal's.\<close>

definition render_setup :: "int \<Rightarrow> int \<Rightarrow> exn + int \<times> int \<times> scene" where
  "render_setup max_y max_x =
     (let scene_width = max_x * SCENE_WIDTH_MULTIPLIER;
          scene_height = max_y * SCENE_HEIGHT_MULTIPLIER
      in case generate_scene scene_width scene_height of
           Inl e \<Rightarrow> Inl e
         | Inr scene \<Rightarrow> Inr (scene_width, scene_height, scene))"

text \<open>
  A window that records the calls it receives, in order, and raises
  \<^verbatim>\<open>curses.error\<close> on the writes that \<open>faulty\<close> selects.
\<close>

datatype call = Clear | AddStr int int string | AddCh int int char | Refresh

definition recorder :: "(call \<Rightarrow> bool) \<Rightarrow> call list stdscr" where
  "recorder faulty =
     \<lparr>clear = (\<lambda>d. d @ [Clear]),
      addstr = (\<lambda>d r c s. (d @ [AddStr r c s],
                           if faulty (AddStr r c s) then Some CursesError else None)),
      addch = (\<lambda>d r c ch. (d @ [AddCh r c ch],
                           if faulty (AddCh r c ch) then Some CursesError else None)),
      refresh = (\<lambda>d. d @ [Refresh])\<rparr>"


section \<open>Start-up (lines 44 to 68 and 150 to 159)\<close>

text \<open>
  \<^verbatim>\<open>start_mouse_listener\<close> up to the point where it either raises or enters
  \<^verbatim>\<open>CFRunLoopRun()\<close>, which delivers events to the callback and does not return.
  \<open>event_tap\<close> says whether \<^verbatim>\<open>CGEventTapCreate\<close> returned a tap.
\<close>

definition start_mouse_listener :: "bool \<Rightarrow> exn + unit" where
  "start_mouse_listener event_tap =
     (if \<not> event_tap then Inl (Exception ''Unable to create event tap.'') else Inr ())"

text \<open>
  \<^verbatim>\<open>threading.Thread(target=f, daemon=True).start()\<close>: \<open>f\<close> runs in a thread of
  its own. An exception that \<open>f\<close> raises ends that thread, which reports it on the
  standard error stream; it is not raised in the thread that called \<^verbatim>\<open>start()\<close>.
\<close>

datatype thread = Alive | Ended "exn option"

definition thread_start :: "exn + unit \<Rightarrow> thread" where
  "thread_start outcome = (case outcome of Inl e \<Rightarrow> Ended (Some e) | Inr u \<Rightarrow> Alive)"

text \<open>
  The module's top level: the listener thread is started, then the main thread calls
  \<^verbatim>\<open>curses.wrapper(render_scene)\<close>. For the main thread, \<open>Inl e\<close> is the process
  ending with \<open>e\<close> raised out of \<^verbatim>\<open>render_scene\<close>, and \<open>Inr\<close> is the render
  loop entered with the scene it draws. (The cursor-hiding thread only repeats a
  platform call.)
\<close>

record process =
  mouse_listener_thread :: thread
  main_thread :: "exn + int \<times> int \<times> scene"

definition main_module :: "bool \<Rightarrow> int \<Rightarrow> int \<Rightarrow> process" where
  "main_module event_tap max_y max_x =
     \<lparr>mouse_listener_thread = thread_start (start_mouse_listener event_tap),
      main_thread = render_setup max_y max_x\<rparr>"


section \<open>Facts about the primitives\<close>

lemma py_slice_nonneg:
  "0 \<le> a \<Longrightarrow> 0 \<le> b \<Longrightarrow> py_slice xs a b = drop (nat a) (take (nat b) xs)"
  by (simp add: py_slice_def clip_index_def min_def)

lemma py_slice_empty_at_zero: "py_slice xs 0 0 = []"
  by (simp add: py_slice_def clip_index_def)

lemma length_py_slice_nonneg:
  "0 \<le> a \<Longrightarrow> 0 \<le> b \<Longrightarrow> length (py_slice xs a b) = min (nat b) (length xs) - nat a"
  by (simp add: py_slice_nonneg min.commute)


section \<open>The window at the right edge\<close>

text \<open>
  C10. When the viewport ends exactly at the scene's right edge
  (\<open>visible_start_x + max_x = scene_width\<close>) the test of line 115 is false, because
  it is strict, and the code builds \<open>row[start:W] + row[0:0]\<close>. That is the same
  string as the single slice \<open>row[start:start + max_x]\<close>, which is also what the
  spec's wording of the window gives there.
\<close>

theorem C10_edge_wrap_equals_contiguous:
  assumes "visible_start_x + max_x = scene_width"
  shows "visible_line scene_row scene_width max_x visible_start_x
           = py_slice scene_row visible_start_x scene_width @ py_slice scene_row 0 0
       \<and> visible_line scene_row scene_width max_x visible_start_x
           = py_slice scene_row visible_start_x (visible_start_x + max_x)
       \<and> visible_line scene_row scene_width max_x visible_start_x
           = spec_line scene_row scene_width max_x visible_start_x"
  using assms by (simp add: visible_line_def spec_line_def py_slice_empty_at_zero)

theorem C10_edge_wrap_witness:
  "(12::int) + 8 = 20
   \<and> visible_line ''abcdefghijklmnopqrst'' 20 8 12 = ''mnopqrst''
   \<and> visible_line ''abcdefghijklmnopqrst'' 20 8 12
        = py_slice ''abcdefghijklmnopqrst'' 12 (12 + 8)"
  using C10_edge_wrap_equals_contiguous [of 12 8 20 "''abcdefghijklmnopqrst''"]
  by (simp add: py_slice_def clip_index_def)


section \<open>The viewport anchor\<close>

lemma py_int_nonneg: "0 \<le> x \<Longrightarrow> py_int x = \<lfloor>x\<rfloor>"
  by (simp add: py_int_def)

lemma py_int_of_int: "py_int (of_int k) = k"
  by (simp add: py_int_def)

lemma py_int_neg_fraction: "x < 0 \<Longrightarrow> x \<notin> \<int> \<Longrightarrow> py_int x = \<lfloor>x\<rfloor> + 1"
proof -
  assume "x < 0" and "x \<notin> \<int>"
  then have "x \<noteq> of_int \<lfloor>x\<rfloor>"
    by (metis Ints_of_int)
  with \<open>x < 0\<close> show ?thesis
    by (simp add: py_int_def ceiling_altdef)
qed

text \<open>
  C1, as the spec states it, fails on the code. After one motion event with
  \<open>dx = 1\<close> from the initial state the stored offset is the float \<open>-0.2\<close>, that
  is \<open>-3602879701896397 / 2^54\<close>. Line 109 computes \<^verbatim>\<open>int(-0.2) % 320 = 0\<close>,
  while \<open>floor(-0.2) mod 320 = 319\<close>.
\<close>

theorem C1_floor_counterexample:
  "visible_start (- (3602879701896397 / 18014398509481984)) 320 = Inr 0
   \<and> \<lfloor>- (3602879701896397 / 18014398509481984) :: rat\<rfloor> mod 320 = (319::int)"
  by code_simp

text \<open>
  C1, amended. For a scene extent \<open>W > 0\<close> the anchor is
  \<open>int(offset) mod W\<close>, where \<open>int\<close> discards the fractional part (rounds toward
  zero) and \<open>mod\<close> is the floor-based modulo: the anchor is always in \<open>[0, W)\<close>.
  It equals \<open>floor(offset) mod W\<close> when the offset is non-negative or integral; for a
  negative offset with a fractional part it is \<open>(floor(offset) + 1) mod W\<close>.
\<close>

theorem C1_anchor_truncates:
  assumes "0 < W"
  shows "visible_start x W = Inr (py_int x mod W)
       \<and> 0 \<le> py_int x mod W \<and> py_int x mod W < W
       \<and> (0 \<le> x \<or> x \<in> \<int> \<longrightarrow> py_int x mod W = \<lfloor>x\<rfloor> mod W)
       \<and> (x < 0 \<and> x \<notin> \<int> \<longrightarrow> py_int x mod W = (\<lfloor>x\<rfloor> + 1) mod W)"
  using assms
  by (auto simp: visible_start_def py_mod_def py_int_nonneg py_int_of_int py_int_neg_fraction
        elim!: Ints_cases)

theorem C1_anchor_truncates_witness:
  "(0::int) < 320
   \<and> visible_start (- (5 / 2)) 320 = Inr 318
   \<and> visible_start (5 / 2) 320 = Inr 2"
proof -
  have e: "py_int (- (5 / 2)) = - 2" "py_int (5 / 2) = 2"
    by code_simp+
  show ?thesis
    using C1_anchor_truncates [of 320 "- (5 / 2)"] C1_anchor_truncates [of 320 "5 / 2"] e
    by simp
qed


section \<open>The size of the window\<close>

lemma length_visible_line:
  assumes "length scene_row = nat W" and "0 \<le> sx" and "sx < W" and "0 \<le> w"
  shows "int (length (visible_line scene_row W w sx)) = min w (2 * W - sx)"
  using assms by (auto simp: visible_line_def Let_def length_py_slice_nonneg)

lemma row_text_wellformed:
  assumes "0 < H" and "length scene = nat H"
  shows "row_text scene W H w sx sy row
           = Inr (py_slice (visible_line (scene ! nat ((sy + row) mod H)) W w sx) 0 w)"
proof -
  define j where "j = (sy + row) mod H"
  have "0 \<le> j" and "j < H"
    using assms(1) by (simp_all add: j_def)
  then have "py_index scene j = Inr (scene ! nat j)"
    using assms(2) by (simp add: py_index_def Let_def)
  then show ?thesis
    using assms(1) by (simp add: row_text_def py_mod_def j_def)
qed

lemma length_row_text:
  assumes "0 < H" and "length scene = nat H" and "\<forall>r \<in> set scene. length r = nat W"
    and "0 \<le> sx" and "sx < W" and "0 \<le> w"
  shows "\<exists>t. row_text scene W H w sx sy row = Inr t \<and> int (length t) = min w (2 * W - sx)"
proof -
  let ?r = "scene ! nat ((sy + row) mod H)"
  have "nat ((sy + row) mod H) < length scene"
    using assms(1,2) by (simp add: nat_less_iff)
  then have "length ?r = nat W"
    using assms(3) by simp
  then have "int (length (visible_line ?r W w sx)) = min w (2 * W - sx)"
    using assms by (simp add: length_visible_line)
  then have "int (length (py_slice (visible_line ?r W w sx) 0 w)) = min w (2 * W - sx)"
    using assms by (simp add: length_py_slice_nonneg)
  then show ?thesis
    using assms by (simp add: row_text_wellformed)
qed

text \<open>
  On the recording window the row loop appends one \<open>AddStr\<close> per row, whatever
  writes fail, as long as every row's text can be computed.
\<close>

lemma draw_rows_recorder:
  assumes "\<forall>row \<in> set rows. \<exists>t. row_text scene W H w sx sy row = Inr t \<and> P t"
  shows "\<exists>ts. draw_rows (recorder faulty) scene W H w sx sy rows d
                 = Inr (d @ map (\<lambda>(row, t). AddStr row 0 t) (zip rows ts))
              \<and> length ts = length rows \<and> (\<forall>t \<in> set ts. P t)"
  using assms
proof (induction rows arbitrary: d)
  case Nil
  then show ?case by simp
next
  case (Cons row rows)
  from Cons.prems obtain t where t: "row_text scene W H w sx sy row = Inr t" "P t"
    by auto
  let ?d = "d @ [AddStr row 0 t]"
  from Cons.IH [of ?d] Cons.prems obtain ts where
    ts: "draw_rows (recorder faulty) scene W H w sx sy rows ?d
           = Inr (?d @ map (\<lambda>(row, t). AddStr row 0 t) (zip rows ts))"
        "length ts = length rows" "\<forall>t \<in> set ts. P t"
    by auto
  have "draw_rows (recorder faulty) scene W H w sx sy (row # rows) d
          = Inr (d @ map (\<lambda>(row, t). AddStr row 0 t) (zip (row # rows) (t # ts)))"
    using t ts by (simp add: recorder_def except_curses_error_def)
  then show ?case
    using t ts by (intro exI [of _ "t # ts"]) simp
qed

lemma length_py_range: "length (py_range n) = nat n"
  by (simp add: py_range_def)

text \<open>
  For a scene of \<open>scene_height > 0\<close> rows of \<open>scene_width\<close> characters each and an
  anchor column in \<open>[0, scene_width)\<close>, the row loop draws \<open>max_y\<close> rows of
  \<open>min max_x (2 * scene_width - visible_start_x)\<close> characters each: lines 117 to 120
  concatenate two slices, so they wrap once.
\<close>

lemma window_size:
  assumes "0 < scene_height" and "length scene = nat scene_height"
    and "\<forall>r \<in> set scene. length r = nat scene_width"
    and "0 \<le> visible_start_x" and "visible_start_x < scene_width" and "0 \<le> max_x"
  shows "\<exists>texts. draw_rows (recorder faulty) scene scene_width scene_height max_x
                   visible_start_x visible_start_y (py_range max_y) d
                 = Inr (d @ map (\<lambda>(row, t). AddStr row 0 t) (zip (py_range max_y) texts))
              \<and> length texts = nat max_y
              \<and> (\<forall>t \<in> set texts. int (length t) = min max_x (2 * scene_width - visible_start_x))
              \<and> (max_x \<le> scene_width \<longrightarrow> (\<forall>t \<in> set texts. int (length t) = max_x))"
proof -
  have "\<forall>row \<in> set (py_range max_y). \<exists>t.
          row_text scene scene_width scene_height max_x visible_start_x visible_start_y row = Inr t
          \<and> int (length t) = min max_x (2 * scene_width - visible_start_x)"
    using assms by (simp add: length_row_text)
  from draw_rows_recorder [where faulty = faulty and d = d, OF this] obtain texts where
    "draw_rows (recorder faulty) scene scene_width scene_height max_x
        visible_start_x visible_start_y (py_range max_y) d
      = Inr (d @ map (\<lambda>(row, t). AddStr row 0 t) (zip (py_range max_y) texts))"
    and "length texts = nat max_y"
    and len: "\<forall>t \<in> set texts. int (length t) = min max_x (2 * scene_width - visible_start_x)"
    by (auto simp: length_py_range)
  moreover have "max_x \<le> scene_width \<longrightarrow> (\<forall>t \<in> set texts. int (length t) = max_x)"
    using len assms(5) by auto
  ultimately show ?thesis
    by blast
qed

text \<open>
  A viewport wider than the scene is outside what \<^verbatim>\<open>render_scene\<close> builds (its scene
  is four times as wide as the viewport). There the two slices fall short: with a row
  of 10 characters, a viewport 12 wide and the anchor at column 9, the line has 11
  characters.
\<close>

lemma wide_viewport_wraps_once:
  "row_text (replicate 10 ''0123456789'') 10 10 12 9 0 0 = Inr ''90123456789''"
  by code_simp


section \<open>Wrap idempotence\<close>

text \<open>
  C6. An offset and the same offset plus the scene width give the same anchor (line
  109 reduces both modulo \<open>W\<close>), and the rows extracted at \<open>start_x + W\<close> taken
  modulo \<open>W\<close> are the rows extracted at \<open>start_x\<close> taken modulo \<open>W\<close>, for every
  viewport width.
\<close>

theorem C6_wrap_idempotence:
  "visible_start (of_int (start_x + W)) W = visible_start (of_int start_x) W
   \<and> row_text scene W H w ((start_x + W) mod W) start_y row
       = row_text scene W H w (start_x mod W) start_y row"
proof -
  have "py_int (of_int (start_x + W)) = start_x + W"
    by (rule py_int_of_int)
  then show ?thesis
    by (simp add: visible_start_def py_mod_def py_int_of_int)
qed


section \<open>Writes to the window\<close>

lemma except_curses_error_recorder_addstr:
  "except_curses_error (addstr (recorder faulty) d r c t) = Inr (d @ [AddStr r c t])"
  by (simp add: recorder_def except_curses_error_def)

lemma draw_crosshair_recorder:
  "draw_crosshair (recorder faulty) max_y max_x d
     = Inr (d @ [AddCh (max_y div 2) (max_x div 2) (CHR ''+'')])"
  by (simp add: draw_crosshair_def Let_def recorder_def except_curses_error_def)

lemma draw_rows_recorder_calls:
  "draw_rows (recorder faulty) scene W H w sx sy rows d = Inr d'
   \<Longrightarrow> \<exists>ts. d' = d @ map (\<lambda>(row, t). AddStr row 0 t) (zip rows ts) \<and> length ts = length rows"
proof (induction rows arbitrary: d)
  case Nil
  then show ?case by simp
next
  case (Cons row rows)
  from Cons.prems obtain t where t: "row_text scene W H w sx sy row = Inr t"
    by (cases "row_text scene W H w sx sy row") simp_all
  with Cons.prems have
    "draw_rows (recorder faulty) scene W H w sx sy rows (d @ [AddStr row 0 t]) = Inr d'"
    by (simp add: except_curses_error_recorder_addstr)
  from Cons.IH [OF this] obtain ts where
    "d' = (d @ [AddStr row 0 t]) @ map (\<lambda>(row, t). AddStr row 0 t) (zip rows ts)"
    and "length ts = length rows"
    by blast
  then show ?case
    by (intro exI [of _ "t # ts"]) simp
qed

lemma draw_rows_recorder_any_faults:
  "draw_rows (recorder faulty) scene W H w sx sy rows d
     = draw_rows (recorder faulty') scene W H w sx sy rows d"
  by (induction rows arbitrary: d)
     (simp_all add: except_curses_error_recorder_addstr split: sum.splits)

lemma except_curses_error_not_curses: "except_curses_error r \<noteq> Inl CursesError"
  by (simp add: except_curses_error_def split: option.splits)

lemma row_text_not_curses: "row_text scene W H w sx sy row \<noteq> Inl CursesError"
  by (auto simp: row_text_def py_mod_def py_index_def Let_def split: sum.splits if_splits)

lemma draw_rows_not_curses: "draw_rows scr scene W H w sx sy rows d \<noteq> Inl CursesError"
proof (induction rows arbitrary: d)
  case Nil
  then show ?case by simp
next
  case (Cons row rows)
  show ?case
  proof (cases "row_text scene W H w sx sy row")
    case (Inl e)
    then show ?thesis
      using row_text_not_curses [of scene W H w sx sy row] by auto
  next
    case (Inr t)
    show ?thesis
    proof (cases "except_curses_error (addstr scr d row 0 t)")
      case (Inl e)
      then show ?thesis
        using Inr except_curses_error_not_curses [of "addstr scr d row 0 t"] by auto
    next
      case (Inr d')
      then show ?thesis
        using \<open>row_text scene W H w sx sy row = Inr t\<close> Cons.IH [of d'] by simp
    qed
  qed
qed

lemma int_times_float_not_curses: "int_times_float n f \<noteq> Inl CursesError"
  by (simp add: int_times_float_def split: pyfloat.splits)

lemma camera_update_not_curses: "camera_update ox oy dx dy \<noteq> Inl CursesError"
  using int_times_float_not_curses
  by (auto simp: camera_update_def split: sum.splits)

lemma anchors_not_curses: "anchors offs W H \<noteq> Inl CursesError"
  by (auto simp: anchors_def visible_start_def py_mod_def split: pyfloat.splits sum.splits if_splits)

lemma draw_crosshair_not_curses: "draw_crosshair scr max_y max_x d \<noteq> Inl CursesError"
  by (simp add: draw_crosshair_def Let_def except_curses_error_not_curses)

lemma render_frame_not_curses:
  "render_frame scr max_y max_x W H scene s \<noteq> Inl CursesError"
  by (auto simp: render_frame_def Let_def camera_update_not_curses anchors_not_curses
        draw_rows_not_curses draw_crosshair_not_curses split: sum.splits prod.splits)

lemma render_frame_recorder_any_faults:
  "render_frame (recorder faulty) max_y max_x W H scene s
     = render_frame (recorder faulty') max_y max_x W H scene s"
proof -
  have c: "clear (recorder faulty) = clear (recorder faulty')"
    and r: "refresh (recorder faulty) = refresh (recorder faulty')"
    by (simp_all add: recorder_def)
  show ?thesis
    unfolding render_frame_def Let_def c r
      draw_rows_recorder_any_faults [of faulty _ _ _ _ _ _ _ _ faulty']
      draw_crosshair_recorder
    by simp
qed


section \<open>The parts of a frame\<close>

text \<open>
  A frame that completes has updated the camera, computed both anchors from the
  stored offsets, drawn the rows and the crosshair, and refreshed the window.
\<close>

lemma render_frame_InrD:
  assumes "render_frame scr max_y max_x W H scene (g, d) = Inr (g', d')"
  shows "\<exists>sx sy d1 d2.
     camera_update (scene_offset g) (vertical_offset g)
        (fst (mouse_delta_buffer g)) (snd (mouse_delta_buffer g))
       = Inr (Finite (scene_offset g'), Finite (vertical_offset g'))
   \<and> visible_start (scene_offset g') W = Inr sx
   \<and> visible_start (vertical_offset g') H = Inr sy
   \<and> draw_rows scr scene W H max_x sx sy (py_range max_y) (clear scr d) = Inr d1
   \<and> draw_crosshair scr max_y max_x d1 = Inr d2
   \<and> d' = refresh scr d2
   \<and> mouse_delta_buffer g' = (0, 0)"
  using assms
  by (auto simp: render_frame_def Let_def anchors_def
        split: sum.splits pyfloat.splits prod.splits)

text \<open>
  Lowering an offset by the scene width lowers \<^verbatim>\<open>int(offset)\<close> by the same amount,
  and so keeps the anchor, unless the offset lies strictly between \<open>0\<close> and the
  width and has a fractional part: there the truncation changes direction and the
  anchor moves by one column.
\<close>

lemma py_int_shift:
  assumes "x \<le> 0 \<or> of_int W \<le> x \<or> x \<in> \<int>" and "0 < W"
  shows "py_int (x - of_int W) = py_int x - W"
proof -
  consider (int) "x \<in> \<int>" | (neg) "x < 0" | (big) "of_int W \<le> x"
    using assms(1) by (cases "x = 0") auto
  then show ?thesis
  proof cases
    case int
    then obtain k where "x = of_int k"
      by (auto elim: Ints_cases)
    then have "x - of_int W = of_int (k - W)"
      by simp
    then show ?thesis
      using \<open>x = of_int k\<close> by (simp only: py_int_of_int)
  next
    case neg
    then have "x - of_int W < 0"
      using assms(2) by simp
    with neg show ?thesis
      by (simp add: py_int_def)
  next
    case big
    then have "0 \<le> x - of_int W" and "0 \<le> x"
      using assms(2) by simp_all
    then show ?thesis
      by (simp add: py_int_def)
  qed
qed

lemma visible_start_shift:
  assumes "x \<le> 0 \<or> of_int W \<le> x \<or> x \<in> \<int>" and "0 < W"
  shows "visible_start (x - of_int W) W = visible_start x W"
  using assms by (simp add: visible_start_def py_mod_def py_int_shift)

lemma visible_start_shift_fraction:
  assumes "0 < x" and "x < of_int W" and "x \<notin> \<int>"
  shows "visible_start (x - of_int W) W = Inr ((py_int x + 1) mod W)"
proof -
  have "0 < W"
    using assms(1,2) by (meson of_int_0_less_iff order_less_trans)
  have "x - of_int W \<notin> \<int>"
    using assms(3) by (metis Ints_of_int diff_add_cancel Ints_add)
  then have "py_int (x - of_int W) = \<lfloor>x - of_int W\<rfloor> + 1"
    using assms(2) by (simp add: py_int_neg_fraction)
  also have "\<dots> = py_int x + 1 - W"
    using assms(1) by (simp add: py_int_def)
  finally show ?thesis
    using \<open>0 < W\<close> by (simp add: visible_start_def py_mod_def)
qed


section \<open>Rounding stays finite\<close>

text \<open>
  An exact result below \<open>2^1023\<close> in magnitude rounds to a finite float of at most
  twice its magnitude. So the camera update yields finite offsets as long as the
  offsets and the consumed deltas are at most \<open>2^1000\<close> in magnitude.
\<close>

lemma pow2_pos: "0 < pow2 e"
  by (simp add: pow2_def)

lemma pow2_Suc: "pow2 (e + 1) = 2 * pow2 e"
proof (cases "0 \<le> e")
  case True
  then show ?thesis
    by (simp add: pow2_def nat_add_distrib)
next
  case False
  then have "nat (- e) = Suc (nat (- (e + 1)))"
    by simp
  then show ?thesis
    using False by (auto simp: pow2_def)
qed

lemma pow2_mono: "e \<le> e' \<Longrightarrow> pow2 e \<le> pow2 e'"
proof -
  have step: "pow2 e \<le> pow2 (e + int n)" for n
  proof (induction n)
    case 0
    then show ?case by simp
  next
    case (Suc n)
    have "pow2 (e + int (Suc n)) = 2 * pow2 (e + int n)"
      using pow2_Suc [of "e + int n"] by (simp add: ac_simps)
    with Suc pow2_pos [of "e + int n"] show ?case
      by simp
  qed
  assume "e \<le> e'"
  then have "e' = e + int (nat (e' - e))"
    by simp
  with step [of "nat (e' - e)"] show ?thesis
    by simp
qed

lemma pow2_add: "pow2 (x + y) = pow2 x * pow2 y"
proof -
  have nn: "pow2 (x + int n) = pow2 x * 2 ^ n" for x n
  proof (induction n)
    case 0
    then show ?case by simp
  next
    case (Suc n)
    have "pow2 (x + int (Suc n)) = 2 * pow2 (x + int n)"
      using pow2_Suc [of "x + int n"] by (simp add: ac_simps)
    with Suc show ?case
      by simp
  qed
  show ?thesis
  proof (cases "0 \<le> y")
    case True
    then show ?thesis
      using nn [of x "nat y"] by (simp add: pow2_def)
  next
    case False
    then have "pow2 x = pow2 (x + y) * 2 ^ nat (- y)"
      using nn [of "x + y" "nat (- y)"] by simp
    then show ?thesis
      using False by (simp add: pow2_def)
  qed
qed

lemma bit_length_bounds:
  "0 < n \<Longrightarrow> 0 < bit_length n \<and> pow2 (bit_length n - 1) \<le> of_int n \<and> of_int n < pow2 (bit_length n)"
proof (induction n rule: bit_length.induct)
  case (1 n)
  show ?case
  proof (cases "n div 2 = 0")
    case True
    with "1.prems" have "n = 1"
      by presburger
    then show ?thesis
      by (simp add: bit_length.simps [of 1] bit_length.simps [of 0] pow2_def)
  next
    case False
    with "1.prems" have pos: "0 < n div 2"
      by presburger
    let ?b = "bit_length (n div 2)"
    from "1.IH" "1.prems" pos have ih: "0 < ?b" "pow2 (?b - 1) \<le> of_int (n div 2)"
      "of_int (n div 2) < pow2 ?b"
      by auto
    have b: "bit_length n = ?b + 1"
      using "1.prems" by (simp add: bit_length.simps [of n])
    have lo: "(2::rat) * of_int (n div 2) \<le> of_int n"
    proof -
      have "2 * (n div 2) \<le> n" by presburger
      then have "(of_int (2 * (n div 2)) :: rat) \<le> of_int n"
        by (simp only: of_int_le_iff)
      then show ?thesis by simp
    qed
    have hi: "(of_int n :: rat) + 1 \<le> 2 * (of_int (n div 2) + 1)"
    proof -
      have "n + 1 \<le> 2 * (n div 2 + 1)" by presburger
      then have "(of_int (n + 1) :: rat) \<le> of_int (2 * (n div 2 + 1))"
        by (simp only: of_int_le_iff)
      then show ?thesis by simp
    qed
    have "pow2 (bit_length n - 1) = 2 * pow2 (?b - 1)"
      using pow2_Suc [of "?b - 1"] b by simp
    then have 1: "pow2 (bit_length n - 1) \<le> of_int n"
      using ih(2) lo by simp
    obtain k where k: "pow2 ?b = of_int k"
      using ih(1) by (simp add: pow2_def)
    then have "n div 2 < k"
      using ih(3) by simp
    then have "n div 2 + 1 \<le> k"
      by simp
    then have "(of_int (n div 2) :: rat) + 1 \<le> pow2 ?b"
      using k by (metis of_int_1 of_int_add of_int_le_iff)
    then have "(of_int n :: rat) + 1 \<le> 2 * pow2 ?b"
      using hi by simp
    then have 2: "of_int n < pow2 (bit_length n)"
      using pow2_Suc [of ?b] b by simp
    from 1 2 b ih(1) show ?thesis
      by simp
  qed
qed


lemma binade_lower:
  assumes "0 < a"
  shows "pow2 (binade a) \<le> a"
proof -
  obtain n d where q: "quotient_of a = (n, d)"
    by (cases "quotient_of a") auto
  then have d: "0 < d"
    using quotient_of_denom_pos by blast
  from q have a: "a = of_int n / of_int d"
    by (rule quotient_of_div)
  with assms d have n: "0 < n"
    by (simp add: zero_less_divide_iff)
  let ?k = "bit_length n - bit_length d"
  show ?thesis
  proof (cases "pow2 ?k \<le> a")
    case True
    then show ?thesis
      using q by (simp add: binade_def)
  next
    case False
    then have b: "binade a = ?k - 1"
      using q by (simp add: binade_def)
    from bit_length_bounds [OF n] have n1: "pow2 (bit_length n - 1) \<le> of_int n"
      by simp
    from bit_length_bounds [OF d] have d1: "of_int d < pow2 (bit_length d)"
      by simp
    have split: "pow2 (bit_length n - 1) = pow2 (?k - 1) * pow2 (bit_length d)"
      by (simp add: pow2_add [symmetric])
    have "pow2 (?k - 1) * of_int d \<le> pow2 (?k - 1) * pow2 (bit_length d)"
      using d1 pow2_pos [of "?k - 1"] by simp
    also have "\<dots> \<le> of_int n"
      using n1 split by simp
    finally have "pow2 (?k - 1) \<le> of_int n / of_int d"
      using d by (simp add: pos_le_divide_eq)
    then show ?thesis
      using a b by simp
  qed
qed


lemma round_half_even_bounds:
  assumes "0 \<le> t"
  shows "0 \<le> round_half_even t \<and> of_int (round_half_even t) \<le> 2 * t"
proof -
  define f where "f = \<lfloor>t\<rfloor>"
  define r where "r = t - of_int f"
  have f: "0 \<le> f"
    using assms by (simp add: f_def)
  then have f': "(0::rat) \<le> of_int f"
    by simp
  have r: "0 \<le> r" "r < 1" "t = of_int f + r"
    unfolding r_def f_def by linarith+
  have eq: "round_half_even t
      = (if r < 1 / 2 then f else if 1 / 2 < r then f + 1 else if even f then f else f + 1)"
    by (simp add: round_half_even_def Let_def f_def r_def)
  consider "r < 1 / 2" | "1 / 2 < r" | "r = 1 / 2"
    by linarith
  then show ?thesis
  proof cases
    case 1
    then show ?thesis
      using eq f f' r by simp
  next
    case 2
    then have "round_half_even t = f + 1"
      using eq by simp
    moreover have "of_int f + 1 \<le> 2 * t"
      using 2 f' r by linarith
    ultimately show ?thesis
      using f by simp
  next
    case 3
    then have "round_half_even t = f \<or> round_half_even t = f + 1"
      using eq by simp
    moreover have "of_int f + 1 \<le> 2 * t"
      using 3 f' r by linarith
    ultimately show ?thesis
      using f f' by auto
  qed
qed

lemma fl_finite:
  assumes "\<bar>q\<bar> < pow2 1023"
  shows "\<exists>v. fl q = Finite v \<and> \<bar>v\<bar> \<le> 2 * \<bar>q\<bar>"
proof (cases "q = 0")
  case True
  then show ?thesis
    by (simp add: fl_def)
next
  case False
  define a where "a = \<bar>q\<bar>"
  define e where "e = binade a"
  define p where "p = max (e - 52) (- 1074)"
  define m where "m = round_half_even (a / pow2 p)"
  have a: "0 < a"
    using False by (simp add: a_def)
  have "e < 1023"
  proof (rule ccontr)
    assume "\<not> e < 1023"
    then have "pow2 1023 \<le> pow2 e"
      by (intro pow2_mono) simp
    also have "\<dots> \<le> a"
      unfolding e_def using a by (rule binade_lower)
    finally show False
      using assms by (simp add: a_def)
  qed
  then have fin: "\<not> 1024 \<le> (if m = 2 ^ 53 then e + 1 else e)"
    by simp
  have "0 \<le> a / pow2 p"
    using a pow2_pos [of p] by simp
  from round_half_even_bounds [OF this] have m: "0 \<le> m" "of_int m \<le> 2 * (a / pow2 p)"
    by (simp_all add: m_def)
  then have "of_int m * pow2 p \<le> 2 * a"
    using pow2_pos [of p] by (simp add: pos_le_divide_eq [symmetric])
  moreover have "0 \<le> of_int m * pow2 p"
    using m(1) pow2_pos [of p] by simp
  ultimately have "\<bar>sgn q * (of_int m * pow2 p)\<bar> \<le> 2 * a"
    using False by (simp add: abs_mult)
  moreover have "fl q = Finite (sgn q * (of_int m * pow2 p))"
    using False fin unfolding fl_def Let_def a_def [symmetric] e_def [symmetric]
      p_def [symmetric] m_def [symmetric]
    by simp
  ultimately show ?thesis
    by (simp add: a_def)
qed

lemma pow2_double: "2 * pow2 e = pow2 (e + 1)"
  by (simp add: pow2_Suc)

lemma pow2_strict: "e < e' \<Longrightarrow> pow2 e < pow2 e'"
proof -
  assume "e < e'"
  then have "pow2 (e + 1) \<le> pow2 e'"
    by (intro pow2_mono) simp
  moreover have "pow2 e < pow2 (e + 1)"
    using pow2_pos [of e] by (simp add: pow2_Suc)
  ultimately show ?thesis
    by simp
qed

lemma SCROLL_SPEED_bounded: "\<exists>s. SCROLL_SPEED = Finite s \<and> \<bar>s\<bar> \<le> 1"
proof -
  have "pow2 0 \<le> pow2 1023"
    by (rule pow2_mono) simp
  then have "\<bar>2 / 10 :: rat\<bar> < pow2 1023"
    by (simp add: pow2_def)
  from fl_finite [OF this] show ?thesis
    unfolding SCROLL_SPEED_def by auto
qed

lemma int_times_SCROLL_SPEED_finite:
  assumes "\<bar>of_int n :: rat\<bar> \<le> pow2 1000"
  shows "\<exists>v. int_times_float n SCROLL_SPEED = Inr (Finite v) \<and> \<bar>v\<bar> \<le> pow2 1002"
proof -
  have "\<bar>of_int n :: rat\<bar> < pow2 1023"
    using assms pow2_strict [of 1000 1023] by simp
  from fl_finite [OF this] obtain x where
    x: "fl (of_int n) = Finite x" "\<bar>x\<bar> \<le> 2 * \<bar>of_int n\<bar>"
    by blast
  then have x': "\<bar>x\<bar> \<le> pow2 1001"
    using assms pow2_double [of 1000] by simp
  obtain s where s: "SCROLL_SPEED = Finite s" "\<bar>s\<bar> \<le> 1"
    using SCROLL_SPEED_bounded by blast
  have "\<bar>x * s\<bar> \<le> \<bar>x\<bar> * 1"
    unfolding abs_mult using s(2) by (intro mult_left_mono) simp_all
  then have xs: "\<bar>x * s\<bar> \<le> pow2 1001"
    using x' by simp
  then have "\<bar>x * s\<bar> < pow2 1023"
    using pow2_strict [of 1001 1023] by simp
  from fl_finite [OF this] obtain v where
    v: "fl (x * s) = Finite v" "\<bar>v\<bar> \<le> 2 * \<bar>x * s\<bar>"
    by blast
  then have "\<bar>v\<bar> \<le> pow2 1002"
    using xs pow2_double [of 1001] by simp
  then show ?thesis
    unfolding int_times_float_def x(1) s(1) using v(1) by simp
qed

lemma camera_update_finite:
  assumes "\<bar>ox\<bar> \<le> pow2 1000" and "\<bar>oy\<bar> \<le> pow2 1000"
    and "\<bar>of_int dx :: rat\<bar> \<le> pow2 1000" and "\<bar>of_int dy :: rat\<bar> \<le> pow2 1000"
  shows "\<exists>x y. camera_update ox oy dx dy = Inr (Finite x, Finite y)"
proof -
  from int_times_SCROLL_SPEED_finite [OF assms(3)] obtain px where
    px: "int_times_float dx SCROLL_SPEED = Inr (Finite px)" "\<bar>px\<bar> \<le> pow2 1002"
    by blast
  from int_times_SCROLL_SPEED_finite [OF assms(4)] obtain py where
    py: "int_times_float dy SCROLL_SPEED = Inr (Finite py)" "\<bar>py\<bar> \<le> pow2 1002"
    by blast
  have small: "pow2 1000 + pow2 1002 < pow2 1023"
  proof -
    have "pow2 1000 \<le> pow2 1002"
      by (rule pow2_mono) simp
    then have "pow2 1000 + pow2 1002 \<le> pow2 1003"
      using pow2_double [of 1002] by simp
    then show ?thesis
      using pow2_strict [of 1003 1023] by simp
  qed
  have "\<bar>ox - px\<bar> < pow2 1023"
    using assms(1) px(2) small by linarith
  from fl_finite [OF this] obtain x where "fl (ox - px) = Finite x"
    by blast
  moreover have "\<bar>oy + py\<bar> < pow2 1023"
    using assms(2) py(2) small by linarith
  from fl_finite [OF this] obtain y where "fl (oy + py) = Finite y"
    by blast
  ultimately show ?thesis
    using px(1) py(1) by (simp add: camera_update_def fsub_def fadd_def)
qed


section \<open>Results that are not rounded\<close>

















section \<open>Frames complete\<close>

text \<open>
  A scene that \<^verbatim>\<open>generate_scene\<close> returned has the height asked for, more than 10
  rows and more than 5 columns. On the recording window, a frame over such a scene
  completes whenever the camera update is finite.
\<close>

lemma py_store_length: "py_store xs i v = Inr ys \<Longrightarrow> length ys = length xs"
  by (auto simp: py_store_def Let_def split: if_splits)

lemma store_cell_length: "store_cell scene r c v = Inr scene' \<Longrightarrow> length scene' = length scene"
  by (auto simp: store_cell_def py_store_length split: sum.splits)

lemma mark_cells_length: "mark_cells cols scene = Inr scene' \<Longrightarrow> length scene' = length scene"
proof (induction cols arbitrary: scene)
  case Nil
  then show ?case by simp
next
  case (Cons i cols)
  then show ?case
    by (auto split: sum.splits dest: store_cell_length)
qed

lemma generate_scene_InrD:
  assumes "generate_scene width height = Inr scene"
  shows "length scene = nat height \<and> 10 < height \<and> 5 < width"
proof -
  let ?s = "replicate (nat height) (replicate (nat width) (CHR '' ''))"
  have cols: "[5..14] = (5::int) # [6..14]"
    by (simp add: upto_rec1)
  from assms have m: "mark_cells (5 # [6..14]) ?s = Inr scene"
    by (simp add: generate_scene_def cols)
  then have len: "length scene = nat height"
    using mark_cells_length by fastforce
  from m obtain s1 where s1: "store_cell ?s 10 5 (CHR ''#'') = Inr s1"
    by (auto split: sum.splits)
  then obtain line where line: "py_index ?s 10 = Inr line"
    by (auto simp: store_cell_def split: sum.splits)
  then have h: "10 < height"
    by (auto simp: py_index_def Let_def split: if_splits)
  with line have "line = replicate (nat width) (CHR '' '')"
    by (auto simp: py_index_def Let_def split: if_splits)
  moreover from s1 line obtain line' where "py_store line 5 (CHR ''#'') = Inr line'"
    by (auto simp: store_cell_def split: sum.splits)
  ultimately have "5 < width"
    by (auto simp: py_store_def Let_def split: if_splits)
  with len h show ?thesis
    by simp
qed

lemma render_setup_InrD:
  assumes "render_setup max_y max_x = Inr (W, H, scene)"
  shows "W = max_x * 4 \<and> H = max_y * 3 \<and> 0 < W \<and> 0 < H \<and> length scene = nat H"
proof -
  from assms have w: "W = max_x * 4" and h: "H = max_y * 3"
    and g: "generate_scene W H = Inr scene"
    by (auto simp: render_setup_def Let_def SCENE_WIDTH_MULTIPLIER_def
        SCENE_HEIGHT_MULTIPLIER_def split: sum.splits)
  from generate_scene_InrD [OF g] w h show ?thesis
    by simp
qed

lemma render_frame_recorder_calls:
  assumes "render_frame (recorder faulty) max_y max_x W H scene (g, d) = Inr (g', d')"
  shows "\<exists>texts. d' = d @ [Clear]
                     @ map (\<lambda>(row, t). AddStr row 0 t) (zip (py_range max_y) texts)
                     @ [AddCh (max_y div 2) (max_x div 2) (CHR ''+''), Refresh]
                 \<and> length texts = nat max_y"
proof -
  from render_frame_InrD [OF assms] obtain sx sy d1 d2 where
    rows: "draw_rows (recorder faulty) scene W H max_x sx sy
             (py_range max_y) (clear (recorder faulty) d) = Inr d1"
    and cross: "draw_crosshair (recorder faulty) max_y max_x d1 = Inr d2"
    and d': "d' = refresh (recorder faulty) d2"
    by blast
  from draw_rows_recorder_calls [OF rows] obtain texts where
    "d1 = clear (recorder faulty) d
            @ map (\<lambda>(row, t). AddStr row 0 t) (zip (py_range max_y) texts)"
    and "length texts = nat max_y"
    by (auto simp: length_py_range)
  moreover from cross have "d2 = d1 @ [AddCh (max_y div 2) (max_x div 2) (CHR ''+'')]"
    by (simp add: draw_crosshair_recorder)
  ultimately show ?thesis
    using d' by (intro exI [of _ texts]) (simp add: recorder_def)
qed

lemma render_frame_completes:
  assumes su: "render_setup max_y max_x = Inr (W, H, scene)"
    and "\<bar>scene_offset g\<bar> \<le> pow2 1000" and "\<bar>vertical_offset g\<bar> \<le> pow2 1000"
    and "\<bar>of_int (fst (mouse_delta_buffer g)) :: rat\<bar> \<le> pow2 1000"
    and "\<bar>of_int (snd (mouse_delta_buffer g)) :: rat\<bar> \<le> pow2 1000"
  shows "\<exists>g' d'. render_frame (recorder faulty) max_y max_x W H scene (g, d) = Inr (g', d')"
proof -
  from render_setup_InrD [OF su] have wh: "0 < W" "0 < H" "length scene = nat H"
    by simp_all
  from camera_update_finite [OF assms(2-5)] obtain x y where
    cu: "camera_update (scene_offset g) (vertical_offset g)
           (fst (mouse_delta_buffer g)) (snd (mouse_delta_buffer g)) = Inr (Finite x, Finite y)"
    by blast
  have an: "anchors (Finite x, Finite y) W H = Inr ((x, y), (py_int x mod W, py_int y mod H))"
    using wh by (simp add: anchors_def visible_start_def py_mod_def)
  have "\<forall>row \<in> set (py_range max_y).
          \<exists>t. row_text scene W H max_x (py_int x mod W) (py_int y mod H) row = Inr t \<and> True"
    using wh by (simp add: row_text_wellformed)
  from draw_rows_recorder [where faulty = faulty and d = "clear (recorder faulty) d", OF this]
  obtain d1 where
    "draw_rows (recorder faulty) scene W H max_x (py_int x mod W) (py_int y mod H)
       (py_range max_y) (clear (recorder faulty) d) = Inr d1"
    by blast
  then show ?thesis
    using cu an by (simp add: render_frame_def Let_def draw_crosshair_recorder)
qed





section \<open>Frames of a terminal of 4 rows and 4 columns\<close>

text \<open>
  The scene of such a terminal is 16 wide and 12 high, with the marks in row 10,
  columns 5 to 14. The frames below are evaluated on the recording window.
\<close>

lemma setup_4x4:
  "render_setup 4 4
     = Inr (16, 12, replicate 10 (replicate 16 (CHR '' '')) @ [''     ########## '']
                      @ [replicate 16 (CHR '' '')])"
  by code_simp

lemma frame_initial:
  "render_frame (recorder (\<lambda>c. False)) 4 4 16 12
     (replicate 10 (replicate 16 (CHR '' '')) @ [''     ########## ''] @ [replicate 16 (CHR '' '')])
     (initial_globals, [])
   = Inr (initial_globals,
          [Clear, AddStr 0 0 ''    '', AddStr 1 0 ''    '', AddStr 2 0 ''    '',
           AddStr 3 0 ''    '', AddCh 2 2 (CHR ''+''), Refresh])"
  by code_simp

lemma frame_first:
  "render_frame (recorder (\<lambda>c. False)) 4 4 16 12
     (replicate 10 (replicate 16 (CHR '' '')) @ [''     ########## ''] @ [replicate 16 (CHR '' '')])
     (mouse_event_callback True (- 13) (- 40) initial_globals, [])
   = Inr (\<lparr>scene_offset = 5854679515581645 / 2251799813685248, vertical_offset = 8,
            mouse_delta_buffer = (0, 0)\<rparr>,
          [Clear, AddStr 0 0 ''    '', AddStr 1 0 ''    '', AddStr 2 0 ''   #'',
           AddStr 3 0 ''    '', AddCh 2 2 (CHR ''+''), Refresh])"
  by code_simp





section \<open>The window of the scenes that the program builds\<close>












section \<open>The camera update\<close>




section \<open>The crosshair\<close>

text \<open>
  C8. On every terminal whose scene \<^verbatim>\<open>generate_scene\<close> can build, for every camera
  state and every consumed delta (of magnitude up to \<open>2^1000\<close>, so that the float
  update stays finite), the frame completes and its calls on the recording window
  are: the clear, one \<open>AddStr\<close> per row, the crosshair
  \<^verbatim>\<open>addch(max_y // 2, max_x // 2, "+")\<close>, and the refresh. The cell of the crosshair
  depends on the terminal's dimensions only, not on the camera.
\<close>

theorem C8_crosshair_fixed:
  assumes "render_setup max_y max_x = Inr (scene_width, scene_height, scene)"
    and "\<bar>scene_offset g\<bar> \<le> pow2 1000" and "\<bar>vertical_offset g\<bar> \<le> pow2 1000"
    and "\<bar>of_int (fst (mouse_delta_buffer g)) :: rat\<bar> \<le> pow2 1000"
    and "\<bar>of_int (snd (mouse_delta_buffer g)) :: rat\<bar> \<le> pow2 1000"
  shows "\<exists>g' texts.
      render_frame (recorder faulty) max_y max_x scene_width scene_height scene (g, d)
        = Inr (g', d @ [Clear]
                     @ map (\<lambda>(row, t). AddStr row 0 t) (zip (py_range max_y) texts)
                     @ [AddCh (max_y div 2) (max_x div 2) (CHR ''+''), Refresh])
      \<and> length texts = nat max_y"
proof -
  from render_frame_completes [OF assms] obtain g' d' where
    f: "render_frame (recorder faulty) max_y max_x scene_width scene_height scene (g, d)
          = Inr (g', d')"
    by blast
  from render_frame_recorder_calls [OF f] f show ?thesis
    by blast
qed

theorem C8_crosshair_fixed_witness:
  "render_setup 4 4
     = Inr (16, 12, replicate 10 (replicate 16 (CHR '' '')) @ [''     ########## '']
                      @ [replicate 16 (CHR '' '')])
   \<and> render_frame (recorder (\<lambda>c. False)) 4 4 16 12
       (replicate 10 (replicate 16 (CHR '' '')) @ [''     ########## ''] @ [replicate 16 (CHR '' '')])
       (mouse_event_callback True (- 13) (- 40) initial_globals, [])
     = Inr (\<lparr>scene_offset = 5854679515581645 / 2251799813685248, vertical_offset = 8,
              mouse_delta_buffer = (0, 0)\<rparr>,
            [Clear, AddStr 0 0 ''    '', AddStr 1 0 ''    '', AddStr 2 0 ''   #'',
             AddStr 3 0 ''    '', AddCh 2 2 (CHR ''+''), Refresh])
   \<and> (\<exists>texts. [Clear, AddStr 0 0 ''    '', AddStr 1 0 ''    '', AddStr 2 0 ''   #'',
                  AddStr 3 0 ''    '', AddCh 2 2 (CHR ''+''), Refresh]
                = [] @ [Clear] @ map (\<lambda>(row, t). AddStr row 0 t) (zip (py_range 4) texts)
                     @ [AddCh (4 div 2) (4 div 2) (CHR ''+''), Refresh]
              \<and> length texts = nat 4)"
proof -
  let ?g = "mouse_event_callback True (- 13) (- 40) initial_globals"
  have "pow2 6 \<le> pow2 1000"
    by (rule pow2_mono) simp
  then have big: "64 \<le> pow2 1000"
    by (simp add: pow2_def)
  have b: "\<bar>scene_offset ?g\<bar> \<le> pow2 1000" "\<bar>vertical_offset ?g\<bar> \<le> pow2 1000"
    "\<bar>of_int (fst (mouse_delta_buffer ?g)) :: rat\<bar> \<le> pow2 1000"
    "\<bar>of_int (snd (mouse_delta_buffer ?g)) :: rat\<bar> \<le> pow2 1000"
    using big by (simp_all add: mouse_event_callback_def initial_globals_def)
  from C8_crosshair_fixed [OF setup_4x4 b, where faulty = "\<lambda>c. False" and d = "[]"]
  obtain g' texts where
    "render_frame (recorder (\<lambda>c. False)) 4 4 16 12
       (replicate 10 (replicate 16 (CHR '' '')) @ [''     ########## ''] @ [replicate 16 (CHR '' '')])
       (?g, [])
     = Inr (g', [] @ [Clear] @ map (\<lambda>(row, t). AddStr row 0 t) (zip (py_range 4) texts)
                  @ [AddCh (4 div 2) (4 div 2) (CHR ''+''), Refresh])"
    and "length texts = nat 4"
    by blast
  with frame_first setup_4x4 show ?thesis
    by auto
qed


section \<open>Display write faults\<close>

text \<open>
  C9. No frame ends with \<^verbatim>\<open>curses.error\<close>, whatever the window does: a
  \<^verbatim>\<open>curses.error\<close> of \<^verbatim>\<open>addstr\<close> or \<^verbatim>\<open>addch\<close> is dropped at the write that raised
  it. The frame goes on: on the recording window the result of a frame, with all the
  calls made, is the same whichever writes fail.
\<close>

theorem C9_write_faults_swallowed:
  "render_frame scr max_y max_x scene_width scene_height scene s \<noteq> Inl CursesError
   \<and> render_frame (recorder faulty) max_y max_x scene_width scene_height scene (g, d)
       = render_frame (recorder (\<lambda>c. False)) max_y max_x scene_width scene_height scene (g, d)"
  using render_frame_not_curses render_frame_recorder_any_faults by blast

text \<open>
  A frame in which every write raises \<^verbatim>\<open>curses.error\<close> still makes every call.
\<close>

theorem C9_write_faults_swallowed_witness:
  "render_frame (recorder (\<lambda>c. True)) 4 4 16 12
       (replicate 10 (replicate 16 (CHR '' '')) @ [''     ########## ''] @ [replicate 16 (CHR '' '')])
       (mouse_event_callback True (- 13) (- 40) initial_globals, [])
     = Inr (\<lparr>scene_offset = 5854679515581645 / 2251799813685248, vertical_offset = 8,
              mouse_delta_buffer = (0, 0)\<rparr>,
            [Clear, AddStr 0 0 ''    '', AddStr 1 0 ''    '', AddStr 2 0 ''   #'',
             AddStr 3 0 ''    '', AddCh 2 2 (CHR ''+''), Refresh])
   \<and> addstr (recorder (\<lambda>c. True)) [] 0 0 ''    '' = ([AddStr 0 0 ''    ''], Some CursesError)
   \<and> addch (recorder (\<lambda>c. True)) [] 2 2 (CHR ''+'') = ([AddCh 2 2 (CHR ''+'')], Some CursesError)"
proof -
  note c = C9_write_faults_swallowed [where scr = "recorder (\<lambda>c. True)" and max_y = 4
      and max_x = 4 and scene_width = 16 and scene_height = 12
      and scene = "replicate 10 (replicate 16 (CHR '' '')) @ [''     ########## '']
                     @ [replicate 16 (CHR '' '')]"
      and s = "(mouse_event_callback True (- 13) (- 40) initial_globals, [])"
      and faulty = "\<lambda>c. True"
      and g = "mouse_event_callback True (- 13) (- 40) initial_globals" and d = "[]"]
  from c frame_first have
    "render_frame (recorder (\<lambda>c. True)) 4 4 16 12
       (replicate 10 (replicate 16 (CHR '' '')) @ [''     ########## ''] @ [replicate 16 (CHR '' '')])
       (mouse_event_callback True (- 13) (- 40) initial_globals, [])
     = Inr (\<lparr>scene_offset = 5854679515581645 / 2251799813685248, vertical_offset = 8,
              mouse_delta_buffer = (0, 0)\<rparr>,
            [Clear, AddStr 0 0 ''    '', AddStr 1 0 ''    '', AddStr 2 0 ''   #'',
             AddStr 3 0 ''    '', AddCh 2 2 (CHR ''+''), Refresh])"
    by simp
  then show ?thesis
    by (simp add: recorder_def)
qed


section \<open>The full-cycle round trip\<close>





section \<open>Failure to create the event tap\<close>

text \<open>
  C4. When \<^verbatim>\<open>CGEventTapCreate\<close> returns no tap, \<^verbatim>\<open>start_mouse_listener\<close> raises
  \<^verbatim>\<open>Exception("Unable to create event tap.")\<close>. It runs in the listener thread, so
  only that thread ends. The main thread does the same as with a tap: on a terminal
  of 4 by 4 it enters the render loop, and with no callback ever run each frame
  leaves the camera at the initial offsets. The process is not aborted.
\<close>

theorem C4_tap_failure_enters_render_loop:
  "start_mouse_listener False = Inl (Exception ''Unable to create event tap.'')
   \<and> mouse_listener_thread (main_module False max_y max_x)
       = Ended (Some (Exception ''Unable to create event tap.''))
   \<and> main_thread (main_module False max_y max_x) = main_thread (main_module True max_y max_x)
   \<and> main_thread (main_module False 4 4)
       = Inr (16, 12, replicate 10 (replicate 16 (CHR '' '')) @ [''     ########## '']
                        @ [replicate 16 (CHR '' '')])
   \<and> render_frame (recorder (\<lambda>c. False)) 4 4 16 12
       (replicate 10 (replicate 16 (CHR '' '')) @ [''     ########## ''] @ [replicate 16 (CHR '' '')])
       (initial_globals, [])
     = Inr (initial_globals,
            [Clear, AddStr 0 0 ''    '', AddStr 1 0 ''    '', AddStr 2 0 ''    '',
             AddStr 3 0 ''    '', AddCh 2 2 (CHR ''+''), Refresh])"
  using setup_4x4 frame_initial
  by (simp add: main_module_def thread_start_def start_mouse_listener_def)

end
